theory Spec2Isabelle
  imports Complex_Main "HOL-Library.Word" "HOL-Library.Multiset"
begin

section \<open>Errors, scores and relevance judgments\<close>

text \<open>
  A Go \<open>error\<close> is an interface value. The only error value the code compares by
  identity is \<open>combinator.ErrCacheMiss\<close>; every other error is carried with its message.

  A \<open>float64\<close> score of an evaluator is modelled as a \<open>real\<close>: the scores the
  oracle selector reads are document counts (\<open>NumRet\<close>, \<open>NumRelRet\<close>,
  \<open>len(results)\<close>), which are finite. The scores of a ranking file are parsed from
  text and have a type of their own, \<open>float64\<close> below, with NaN and the infinities.
\<close>

datatype error = ErrCacheMiss | Error string

record Qrel =
  DocId :: string
  Score :: int

type_synonym Qrels = "string \<rightharpoonup> Qrel"

type_synonym QrelsFile = "string \<rightharpoonup> Qrels"

section \<open>eval/evaluator.go\<close>

text \<open>
  \<open>Evaluator\<close> is an interface with the methods \<open>Score\<close> and \<open>Name\<close>; an
  implementation is the record of its two methods (the fields are prefixed, since
  \<open>Score\<close> is also the field of a \<open>Qrel\<close>). A result list is a list of results of
  some type \<open>'r\<close>.
\<close>

record 'r Evaluator =
  ev_Score :: "'r list \<Rightarrow> Qrels \<Rightarrow> real"
  ev_Name :: string

text \<open>The body shared by the two \<open>for _, evaluator := range evaluators\<close> loops.\<close>

fun score_loop :: "'r Evaluator list \<Rightarrow> 'r list \<Rightarrow> Qrels \<Rightarrow> (string \<rightharpoonup> real) \<Rightarrow> (string \<rightharpoonup> real)" where
  "score_loop [] results q scores = scores"
| "score_loop (evaluator # rest) results q scores =
     score_loop rest results q (scores(ev_Name evaluator \<mapsto> ev_Score evaluator results q))"

text \<open>Indexing a Go map with a missing key gives the zero value of the element type.\<close>

definition topic_qrels :: "QrelsFile \<Rightarrow> string \<Rightarrow> Qrels" where
  "topic_qrels qrels topic = (case qrels topic of None \<Rightarrow> Map.empty | Some q \<Rightarrow> q)"

definition score_at :: "(string \<rightharpoonup> real) \<Rightarrow> string \<Rightarrow> real" where
  "score_at evaluation name = (case evaluation name of None \<Rightarrow> 0 | Some v \<Rightarrow> v)"

definition Evaluate :: "'r Evaluator list \<Rightarrow> 'r list \<Rightarrow> QrelsFile \<Rightarrow> string \<Rightarrow> (string \<rightharpoonup> real)" where
  "Evaluate evaluators results qrels topic =
     (let scores = Map.empty;
          q = topic_qrels qrels topic
      in if length results > 0
         then score_loop evaluators results q scores
         else score_loop evaluators [] q scores)"

section \<open>The oracle selector: state and stopping criterion\<close>

text \<open>
  \<open>OracleQueryChainCandidateSelector\<close>. \<open>depth\<close> is a Go \<open>int\<close> (64 bits, two's
  complement, \<open>++\<close> wraps). \<open>ss\<close> is the statistics source, of some type \<open>'ss\<close>.
  \<open>seen\<close> is a Go map, that is a reference (or nil) to a table that lives in the heap
  and is shared by every copy of the struct.
\<close>

type_synonym ref = nat

record 'ss OracleQueryChainCandidateSelector =
  depth :: "64 word"
  minResults :: real
  bestRelRet :: real
  prevRelRet :: real
  bestRet :: real
  prevRet :: real
  qrels :: QrelsFile
  ss :: 'ss
  seen :: "ref option"

definition StoppingCriteria :: "'ss OracleQueryChainCandidateSelector \<Rightarrow> bool" where
  "StoppingCriteria oc =
     (if 5 \<le>s depth oc \<or> (bestRelRet oc = bestRelRet oc \<and> bestRet oc = prevRet oc)
      then True
      else False)"

definition NewOracleQueryChainCandidateSelector :: "'ss \<Rightarrow> QrelsFile \<Rightarrow> 'ss OracleQueryChainCandidateSelector" where
  "NewOracleQueryChainCandidateSelector source file =
     \<lparr>depth = 0, minResults = 0, bestRelRet = - 1, prevRelRet = 0, bestRet = - 1, prevRet = 0,
      qrels = file, ss = source, seen = None\<rparr>"

section \<open>Queries\<close>

text \<open>
  A query of the common query representation is an interface value: a query of some
  type \<open>'q\<close>, or nil. \<open>groove.PipelineQuery\<close> (\<open>pipeline.Query\<close> in the later
  package) carries it with the name and the topic; \<open>NewPipelineQuery\<close> is its
  constructor.
\<close>

record 'q PipelineQuery =
  Name :: string
  Topic :: string
  Query :: "'q option"

definition NewPipelineQuery :: "string \<Rightarrow> string \<Rightarrow> 'q option \<Rightarrow> 'q PipelineQuery" where
  "NewPipelineQuery name topic q = \<lparr>Name = name, Topic = topic, Query = q\<rparr>"

text \<open>
  Modelled from the spec: the type \<open>TransformedQuery\<close> and its method \<open>Append\<close> are
  not among the sources. A transformed query is the current query with the lineage of
  the queries before it, and appending a step gives a new value whose chain is the prior
  chain extended by copy.
\<close>

record 'q TransformedQuery =
  PipelineQuery :: "'q PipelineQuery"
  QueryChain :: "'q option list"

definition Append :: "'q TransformedQuery \<Rightarrow> 'q PipelineQuery \<Rightarrow> 'q TransformedQuery" where
  "Append t q = \<lparr>PipelineQuery = q, QueryChain = QueryChain t @ [Query (PipelineQuery t)]\<rparr>"

definition zero_TransformedQuery :: "'q TransformedQuery" where
  "zero_TransformedQuery = \<lparr>PipelineQuery = \<lparr>Name = [], Topic = [], Query = None\<rparr>, QueryChain = []\<rparr>"

text \<open>
  A \<open>Transformation\<close> is an interface with \<open>Apply\<close> and \<open>Name\<close>. \<open>Apply\<close> returns
  the candidates (of which \<open>Select\<close> reads the field \<open>Query\<close> only) or an error.
\<close>

record 'q Transformation =
  Apply :: "'q option \<Rightarrow> error + 'q option list"
  tr_Name :: string

section \<open>The oracle selector: Select\<close>

text \<open>
  What \<open>Select\<close> calls outside the sources is a parameter of the model:
  \<^item> \<open>NewLogicalTree nq ss seen\<close> of package combinator resolves a query against the
    statistics source with the table \<open>seen\<close>. It returns the tree, the table and an
    error; the model gives the returned table reference and either the error or the
    tree, and the heap of tables after the call (type \<open>'h\<close>).
  \<^item> \<open>make_seen\<close> is \<open>make(map[uint64]combinator.LogicalTreeNode)\<close>: a fresh table.
  \<^item> \<open>Results tree nq name\<close> is \<open>tree.Documents().Results(nq, name)\<close>.
  \<^item> the five evaluators of package eval that \<open>Select\<close> passes to \<open>Evaluate\<close>.
\<close>

record ('q, 'ss, 't, 'r, 'h) env =
  NewLogicalTree :: "'q PipelineQuery \<Rightarrow> 'ss \<Rightarrow> ref option \<Rightarrow> 'h \<Rightarrow> (ref option \<times> (error + 't)) \<times> 'h"
  make_seen :: "'h \<Rightarrow> ref \<times> 'h"
  Results :: "'t \<Rightarrow> 'q PipelineQuery \<Rightarrow> string \<Rightarrow> 'r list"
  RecallEvaluator :: "'r Evaluator"
  PrecisionEvaluator :: "'r Evaluator"
  NumRet :: "'r Evaluator"
  NumRel :: "'r Evaluator"
  NumRelRet :: "'r Evaluator"

text \<open>
  The variables that the loops of \<open>Select\<close> update: the parameter \<open>query\<close>, the
  receiver \<open>oc\<close> (a copy of the caller's struct: the receiver is passed by value), and
  the locals \<open>bestRelRet\<close> and \<open>bestRet\<close>. A loop body either goes on with new
  variables or returns the three results of \<open>Select\<close>.
\<close>

record ('q, 'ss) locals =
  l_query :: "'q TransformedQuery"
  l_oc :: "'ss OracleQueryChainCandidateSelector"
  l_bestRelRet :: real
  l_bestRet :: real

datatype ('a, 'b) flow = Continue 'a | Return 'b

type_synonym ('q, 'ss) selected =
  "'q TransformedQuery \<times> 'ss OracleQueryChainCandidateSelector \<times> error option"

definition oracle_evaluators :: "('q, 'ss, 't, 'r, 'h) env \<Rightarrow> 'r Evaluator list" where
  "oracle_evaluators env =
     [RecallEvaluator env, PrecisionEvaluator env, NumRet env, NumRel env, NumRelRet env]"

text \<open>
  The block guarded by \<open>oc.minResults == 0\<close>: the baseline of the unmodified query.
  Its second test of \<open>err\<close>, after \<open>Evaluate\<close>, reads the error already found nil.
\<close>

definition baseline :: "('q, 'ss, 't, 'r, 'h) env \<Rightarrow> 'ss OracleQueryChainCandidateSelector \<Rightarrow>
    'q TransformedQuery \<Rightarrow> 'h \<Rightarrow>
    ('ss OracleQueryChainCandidateSelector, ('q, 'ss) selected) flow \<times> 'h" where
  "baseline env oc0 query h =
     (case NewLogicalTree env (PipelineQuery query) (ss oc0) (seen oc0) h of
        ((seen', res), h') \<Rightarrow>
          (let oc1 = oc0\<lparr>seen := seen'\<rparr>
           in case res of
                Inl err \<Rightarrow> (Return (query, oc1, Some err), h')
              | Inr tree \<Rightarrow>
                  (let results = Results env tree (PipelineQuery query) (Name (PipelineQuery query));
                       oc2 = oc1\<lparr>minResults := real (length results)\<rparr>;
                       evaluation = Evaluate (oracle_evaluators env) results (qrels oc2)
                                      (Topic (PipelineQuery query));
                       oc3 = oc2\<lparr>bestRelRet := score_at evaluation (ev_Name (NumRelRet env))\<rparr>;
                       oc4 = oc3\<lparr>bestRet := score_at evaluation (ev_Name (NumRet env))\<rparr>
                   in (Continue oc4, h'))))"

text \<open>The body of \<open>for _, applied := range queries\<close>.\<close>

definition candidate_body :: "('q, 'ss, 't, 'r, 'h) env \<Rightarrow> ('q, 'ss) locals \<Rightarrow> 'q option \<Rightarrow> 'h \<Rightarrow>
    (('q, 'ss) locals, ('q, 'ss) selected) flow \<times> 'h" where
  "candidate_body env st applied h =
     (let nq = NewPipelineQuery (Name (PipelineQuery (l_query st)))
                 (Topic (PipelineQuery (l_query st))) applied
      in case NewLogicalTree env nq (ss (l_oc st)) (seen (l_oc st)) h of
        ((seen', res), h') \<Rightarrow>
          (let oc1 = (l_oc st)\<lparr>seen := seen'\<rparr>
           in case res of
                Inl err \<Rightarrow> (Return (l_query st, oc1, Some err), h')
              | Inr tree \<Rightarrow>
                  (let results = Results env tree nq (Name nq);
                       evaluation = Evaluate (oracle_evaluators env) results (qrels oc1)
                                      (Topic (PipelineQuery (l_query st)));
                       numRelRet = score_at evaluation (ev_Name (NumRelRet env));
                       numRet = score_at evaluation (ev_Name (NumRet env))
                   in if numRelRet > 0 \<and> numRelRet \<ge> l_bestRelRet st \<and> numRet \<le> l_bestRet st
                      then (let transformed = NewPipelineQuery (Name (PipelineQuery (l_query st)))
                                                (Topic (PipelineQuery (l_query st))) applied
                            in (Continue \<lparr>l_query = Append (l_query st) transformed,
                                          l_oc = oc1\<lparr>bestRelRet := numRelRet, bestRet := numRet\<rparr>,
                                          l_bestRelRet = numRelRet,
                                          l_bestRet = numRet\<rparr>, h'))
                      else (Continue (st\<lparr>l_oc := oc1\<rparr>), h'))))"

fun candidates_loop :: "('q, 'ss, 't, 'r, 'h) env \<Rightarrow> ('q, 'ss) locals \<Rightarrow> 'q option list \<Rightarrow> 'h \<Rightarrow>
    (('q, 'ss) locals, ('q, 'ss) selected) flow \<times> 'h" where
  "candidates_loop env st [] h = (Continue st, h)"
| "candidates_loop env st (applied # rest) h =
     (case candidate_body env st applied h of
        (Return r, h') \<Rightarrow> (Return r, h')
      | (Continue st', h') \<Rightarrow> candidates_loop env st' rest h')"

text \<open>The loop \<open>for _, transformation := range transformations\<close>.\<close>

fun transformations_loop :: "('q, 'ss, 't, 'r, 'h) env \<Rightarrow> ('q, 'ss) locals \<Rightarrow>
    'q Transformation list \<Rightarrow> 'h \<Rightarrow> (('q, 'ss) locals, ('q, 'ss) selected) flow \<times> 'h" where
  "transformations_loop env st [] h = (Continue st, h)"
| "transformations_loop env st (transformation # rest) h =
     (case Apply transformation (Query (PipelineQuery (l_query st))) of
        Inl err \<Rightarrow> (Return (zero_TransformedQuery, l_oc st, Some err), h)
      | Inr queries \<Rightarrow>
          (case candidates_loop env st queries h of
             (Return r, h') \<Rightarrow> (Return r, h')
           | (Continue st', h') \<Rightarrow> transformations_loop env st' rest h'))"

text \<open>The statements of \<open>Select\<close> before the baseline.\<close>

definition enter :: "('q, 'ss, 't, 'r, 'h) env \<Rightarrow> 'ss OracleQueryChainCandidateSelector \<Rightarrow> 'h \<Rightarrow>
    'ss OracleQueryChainCandidateSelector \<times> 'h" where
  "enter env oc0 h =
     (let oc1 = oc0\<lparr>depth := depth oc0 + 1\<rparr>;
          oc2 = oc1\<lparr>prevRelRet := bestRelRet oc1\<rparr>;
          oc3 = oc2\<lparr>prevRet := bestRet oc2\<rparr>
      in if seen oc3 = None
         then (case make_seen env h of (r, h') \<Rightarrow> (oc3\<lparr>seen := Some r\<rparr>, h'))
         else (oc3, h))"

definition search :: "('q, 'ss, 't, 'r, 'h) env \<Rightarrow> 'ss OracleQueryChainCandidateSelector \<Rightarrow>
    'q TransformedQuery \<Rightarrow> 'q Transformation list \<Rightarrow> 'h \<Rightarrow> ('q, 'ss) selected \<times> 'h" where
  "search env oc0 query transformations h =
     (case transformations_loop env
             \<lparr>l_query = query, l_oc = oc0, l_bestRelRet = bestRelRet oc0, l_bestRet = bestRet oc0\<rparr>
             transformations h of
        (Return r, h') \<Rightarrow> (r, h')
      | (Continue st, h') \<Rightarrow> ((l_query st, l_oc st, None), h'))"

definition Select :: "('q, 'ss, 't, 'r, 'h) env \<Rightarrow> 'ss OracleQueryChainCandidateSelector \<Rightarrow>
    'q TransformedQuery \<Rightarrow> 'q Transformation list \<Rightarrow> 'h \<Rightarrow> ('q, 'ss) selected \<times> 'h" where
  "Select env oc0 query transformations h =
     (case enter env oc0 h of
        (oc1, h1) \<Rightarrow>
          if minResults oc1 = 0
          then (case baseline env oc1 query h1 of
                  (Return r, h2) \<Rightarrow> (r, h2)
                | (Continue oc2, h2) \<Rightarrow> search env oc2 query transformations h2)
          else search env oc1 query transformations h1)"

text \<open>
  A caller holds its selectors in variables; \<open>x.Select(query, transformations)\<close>
  copies the value of \<open>x\<close> into the receiver, runs the body on the copy and hands back
  the three results. Only the heap of tables is shared between caller and callee.
\<close>

record ('ss, 'h) machine =
  vars :: "nat \<Rightarrow> 'ss OracleQueryChainCandidateSelector"
  heap :: 'h

definition call_Select :: "('q, 'ss, 't, 'r, 'h) env \<Rightarrow> ('ss, 'h) machine \<Rightarrow> nat \<Rightarrow>
    'q TransformedQuery \<Rightarrow> 'q Transformation list \<Rightarrow> ('q, 'ss) selected \<times> ('ss, 'h) machine" where
  "call_Select env m x query transformations =
     (case Select env (vars m x) query transformations (heap m) of
        (r, h') \<Rightarrow> (r, m\<lparr>heap := h'\<rparr>))"

text \<open>
  Successive invocations, each on the query and the selector that the one before
  returned (as \<open>tq, qc.CandidateSelector, err = qc.CandidateSelector.Select(...)\<close> in
  the chain does), for any transformations at each invocation: the selector before the
  first call and after each call.
\<close>

fun select_chain :: "('q, 'ss, 't, 'r, 'h) env \<Rightarrow> 'ss OracleQueryChainCandidateSelector \<Rightarrow>
    'q TransformedQuery \<Rightarrow> 'q Transformation list list \<Rightarrow> 'h \<Rightarrow>
    'ss OracleQueryChainCandidateSelector list" where
  "select_chain env oc0 query [] h = [oc0]"
| "select_chain env oc0 query (transformations # later) h =
     oc0 # (case Select env oc0 query transformations h of
              ((query', oc', err), h') \<Rightarrow> select_chain env oc' query' later h')"

section \<open>The objective formulator: Formulate\<close>

text \<open>
  A call either returns or panics.
\<close>

datatype 'a outcome = Panics | Returns 'a

text \<open>
  \<open>strconv.Atoi\<close> of the Go library, for the decimal strings it accepts: an optional
  sign, then one or more digits, the value within the 64-bit range.
\<close>

definition is_digit :: "char \<Rightarrow> bool" where
  "is_digit c = (48 \<le> (of_char c :: nat) \<and> (of_char c :: nat) \<le> 57)"

definition digit_value :: "char \<Rightarrow> int" where
  "digit_value c = int (of_char c) - 48"

definition Atoi :: "string \<Rightarrow> error + int" where
  "Atoi s =
     (let neg = (case s of [] \<Rightarrow> False | c # cs \<Rightarrow> c = CHR ''-'');
          ds = (case s of [] \<Rightarrow> [] | c # cs \<Rightarrow> if c = CHR ''-'' \<or> c = CHR ''+'' then cs else s)
      in if ds \<noteq> [] \<and> list_all is_digit ds
         then (let n = foldl (\<lambda>a c. 10 * a + digit_value c) 0 ds;
                   v = (if neg then - n else n)
               in if - (2 ^ 63) \<le> v \<and> v < 2 ^ 63 then Inr v
                  else Inl (Error ''strconv.Atoi: value out of range''))
         else Inl (Error ''strconv.Atoi: invalid syntax''))"

text \<open>
  The loop \<open>for _, rel := range o.qrels\<close> over the judgments of the topic, in the order
  the range visits them: the ids of the relevant studies, and the other judgments.
\<close>

fun relevant_studies :: "Qrel list \<Rightarrow> int list \<Rightarrow> Qrel list \<Rightarrow> (int list \<times> Qrel list) outcome" where
  "relevant_studies [] docs nonrel = Returns (docs, nonrel)"
| "relevant_studies (rel # rest) docs nonrel =
     (if Score rel > 0
      then (case Atoi (DocId rel) of
              Inl err \<Rightarrow> Panics
            | Inr v \<Rightarrow> relevant_studies rest (docs @ [v]) nonrel)
      else relevant_studies rest docs (nonrel @ [rel]))"

text \<open>
  \<open>Formulate\<close>, up to its guard. What follows the guard (fetching the documents,
  splitting, term analysis, deriving the two queries, post-processing) is outside the
  sources and is the parameter \<open>formulate\<close>, a function of the relevant studies.
\<close>

definition Formulate :: "(int list \<Rightarrow> (error + 'a) outcome) \<Rightarrow> Qrel list \<Rightarrow> (error + 'a) outcome" where
  "Formulate formulate judged =
     (case relevant_studies judged [] [] of
        Panics \<Rightarrow> Panics
      | Returns (docs, nonrel) \<Rightarrow>
          if length docs \<le> 50
          then Returns (Inl (Error ''not enough relevant studies (minimmum 50)''))
          else formulate docs)"

section \<open>The query chain of package learning: Execute and getRanking\<close>

text \<open>
  Modelled from the spec: the type \<open>CandidateQuery\<close> is not among the sources. A
  candidate is a query, a topic, the chain of prior candidates (lineage), the identifier
  of its transformation and its features. \<open>NewCandidateQuery\<close> is its constructor and
  \<open>zero_CandidateQuery\<close> the value of \<open>CandidateQuery{}\<close>.
\<close>

datatype 'q CandidateQuery =
  CandidateQuery (cq_Query: "'q option") (cq_Topic: string) (cq_Chain: "'q CandidateQuery list")
    (cq_TransformationID: int) (cq_Features: "(string \<times> real) list")

definition zero_CandidateQuery :: "'q CandidateQuery" where
  "zero_CandidateQuery = CandidateQuery None [] [] 0 []"

definition NewCandidateQuery :: "'q option \<Rightarrow> string \<Rightarrow> 'q CandidateQuery list \<Rightarrow> 'q CandidateQuery" where
  "NewCandidateQuery q topic chain = CandidateQuery q topic chain 0 []"





text \<open>
  The scores of a ranking file are \<open>float64\<close> values read from text, so they can be
  NaN or an infinity: a \<open>float64\<close> is NaN, an infinity or a finite number (a real; the
  rounding of the parser is the parser's). \<open>f64_gt\<close> is Go's \<open>>\<close> on them: false
  whenever an operand is NaN.
\<close>

datatype float64 = NaN | NegInf | Fin real | PosInf

fun f64_gt :: "float64 \<Rightarrow> float64 \<Rightarrow> bool" where
  "f64_gt NaN y = False"
| "f64_gt x NaN = False"
| "f64_gt NegInf y = False"
| "f64_gt (Fin a) NegInf = True"
| "f64_gt (Fin a) (Fin b) = (a > b)"
| "f64_gt (Fin a) PosInf = False"
| "f64_gt PosInf PosInf = False"
| "f64_gt PosInf y = True"

text \<open>
  \<open>getRanking\<close>. The file system is a state: the contents (or the error) that
  \<open>ioutil.ReadFile\<close> gives for each name, and the names read so far. The library
  functions are parameters: \<open>Scan\<close> gives the lines that \<open>bufio.Scanner\<close> yields for
  the bytes of a file, \<open>ParseFloat line\<close> is \<open>strconv.ParseFloat(line, 64)\<close> (a
  \<open>float64\<close>, NaN and the infinities included, or an error) and \<open>sort_Slice less\<close> is
  \<open>sort.Slice\<close> with the comparison of two elements. A \<open>ranking\<close> is the struct of a
  score and a candidate (fields \<open>rank\<close> and \<open>query\<close>, prefixed here).
\<close>

record fs =
  files :: "string \<Rightarrow> error + string"
  reads :: "string list"

definition ReadFile :: "fs \<Rightarrow> string \<Rightarrow> (error + string) \<times> fs" where
  "ReadFile s filename = (files s filename, s\<lparr>reads := reads s @ [filename]\<rparr>)"

record 'q ranking =
  r_rank :: float64
  r_query :: "'q CandidateQuery"

record 'q lib =
  Scan :: "string \<Rightarrow> string list"
  ParseFloat :: "string \<Rightarrow> error + float64"
  sort_Slice :: "('q ranking \<Rightarrow> 'q ranking \<Rightarrow> bool) \<Rightarrow> 'q ranking list \<Rightarrow> 'q ranking list"

text \<open>
  The loop \<open>for scanner.Scan()\<close>: an index beyond the slices panics (index out of range).
\<close>

fun scan_loop :: "'q lib \<Rightarrow> 'q CandidateQuery list \<Rightarrow> string list \<Rightarrow> nat \<Rightarrow> 'q ranking list \<Rightarrow>
    ('q ranking list, ('q CandidateQuery \<times> error option) outcome) flow" where
  "scan_loop l candidates [] i ranks = Continue ranks"
| "scan_loop l candidates (line # rest) i ranks =
     (case ParseFloat l line of
        Inl err \<Rightarrow> Return (Returns (zero_CandidateQuery, Some err))
      | Inr r \<Rightarrow>
          if i < length ranks \<and> i < length candidates
          then scan_loop l candidates rest (i + 1)
                 (ranks[i := \<lparr>r_rank = r, r_query = candidates ! i\<rparr>])
          else Return Panics)"

definition getRanking :: "'q lib \<Rightarrow> fs \<Rightarrow> string \<Rightarrow> 'q CandidateQuery list \<Rightarrow>
    ('q CandidateQuery \<times> error option) outcome \<times> fs" where
  "getRanking l s filename candidates =
     (if length candidates = 0 then (Returns (zero_CandidateQuery, None), s)
      else (case ReadFile s filename of
              (Inl err, s') \<Rightarrow> (Returns (zero_CandidateQuery, Some err), s')
            | (Inr b, s') \<Rightarrow>
                (case scan_loop l candidates (Scan l b) 0
                        (replicate (length candidates)
                           \<lparr>r_rank = Fin 0, r_query = zero_CandidateQuery\<rparr>) of
                   Return r \<Rightarrow> (r, s')
                 | Continue ranks \<Rightarrow>
                     (let sorted_ranks = sort_Slice l (\<lambda>a b. f64_gt (r_rank a) (r_rank b)) ranks
                      in if length sorted_ranks = 0
                         then (Returns (zero_CandidateQuery, None), s')
                         else (Returns (r_query (sorted_ranks ! 0), None), s')))))"

section \<open>A small collection for closed instances\<close>

text \<open>
  Test doubles for the parameters of \<open>Select\<close>: a collection of five documents, the
  judgments of topic \<open>t\<close> (d1, d3 and d4 are relevant), and queries with fixed
  postings, of which query 3 fails in the statistics source. \<open>NumRet\<close> counts the
  retrieved documents and \<open>NumRelRet\<close> the retrieved documents judged relevant.
\<close>

definition test_qrels :: QrelsFile where
  "test_qrels = [''t'' \<mapsto> [''d1'' \<mapsto> \<lparr>DocId = ''d1'', Score = 1\<rparr>,
                            ''d2'' \<mapsto> \<lparr>DocId = ''d2'', Score = 0\<rparr>,
                            ''d3'' \<mapsto> \<lparr>DocId = ''d3'', Score = 1\<rparr>,
                            ''d4'' \<mapsto> \<lparr>DocId = ''d4'', Score = 1\<rparr>]]"

definition judged_relevant :: "Qrels \<Rightarrow> string \<Rightarrow> bool" where
  "judged_relevant q d = (case q d of None \<Rightarrow> False | Some rel \<Rightarrow> Score rel > 0)"

definition test_documents :: "nat option \<Rightarrow> error + string list" where
  "test_documents q =
     (if q = Some 0 then Inr [''d1'', ''d2'', ''d3'', ''d5'']
      else if q = Some 1 then Inr [''d1'', ''d3'', ''d4'']
      else if q = Some 2 then Inr [''d1'', ''d3'']
      else if q = Some 3 then Inl (Error ''statistics source: request failed'')
      else if q = Some 4 then Inr [''d1'', ''d2'', ''d3'', ''d4'']
      else Inr [])"

definition test_env :: "(nat, unit, string list, string, nat) env" where
  "test_env =
     \<lparr>NewLogicalTree = (\<lambda>nq source table h. ((table, test_documents (Query nq)), h)),
      make_seen = (\<lambda>h. (h, Suc h)),
      Results = (\<lambda>tree nq name. tree),
      RecallEvaluator = \<lparr>ev_Score = (\<lambda>results q. 0), ev_Name = ''Recall''\<rparr>,
      PrecisionEvaluator = \<lparr>ev_Score = (\<lambda>results q. 0), ev_Name = ''Precision''\<rparr>,
      NumRet = \<lparr>ev_Score = (\<lambda>results q. real (length results)), ev_Name = ''NumRet''\<rparr>,
      NumRel = \<lparr>ev_Score = (\<lambda>results q. 0), ev_Name = ''NumRel''\<rparr>,
      NumRelRet = \<lparr>ev_Score = (\<lambda>results q. real (length (filter (judged_relevant q) results))),
                   ev_Name = ''NumRelRet''\<rparr>\<rparr>"

definition test_query :: "nat TransformedQuery" where
  "test_query = \<lparr>PipelineQuery = NewPipelineQuery ''q'' ''t'' (Some 0), QueryChain = []\<rparr>"

text \<open>The selector after the baseline of \<open>test_query\<close>: 2 relevant among 4 retrieved.\<close>

definition test_seeded :: "unit OracleQueryChainCandidateSelector" where
  "test_seeded = \<lparr>depth = 1, minResults = 4, bestRelRet = 2, prevRelRet = - 1, bestRet = 4,
     prevRet = - 1, qrels = test_qrels, ss = (), seen = Some 0\<rparr>"

definition test_locals :: "(nat, unit) locals" where
  "test_locals = \<lparr>l_query = test_query, l_oc = test_seeded, l_bestRelRet = 2, l_bestRet = 4\<rparr>"

text \<open>The running state of the round after query 1 was accepted (3 relevant among 3).\<close>

definition test_locals_1 :: "(nat, unit) locals" where
  "test_locals_1 =
     \<lparr>l_query = Append test_query (NewPipelineQuery ''q'' ''t'' (Some 1)),
      l_oc = test_seeded\<lparr>bestRelRet := 3, bestRet := 3\<rparr>,
      l_bestRelRet = 3, l_bestRet = 3\<rparr>"

text \<open>Transformations that give fixed candidates.\<close>

definition test_transformation :: "nat list \<Rightarrow> nat Transformation" where
  "test_transformation candidates = \<lparr>Apply = (\<lambda>q. Inr (map Some candidates)), tr_Name = ''test''\<rparr>"

text \<open>Fifty judged-relevant studies, with the document ids 10 to 59.\<close>

definition fifty_relevant :: "Qrel list" where
  "fifty_relevant =
     concat (map (\<lambda>a. map (\<lambda>b. \<lparr>DocId = [a, b], Score = 1\<rparr>) ''0123456789'') ''12345'')"







text \<open>
  Library doubles for \<open>getRanking\<close>. Lines are split at the newline character. The
  parser reads integers and the line \<open>NaN\<close>, as \<open>strconv.ParseFloat\<close> does, and
  rejects the rest. \<open>insertionSort_func\<close> is the insertion sort that \<open>sort.Slice\<close>
  runs on a slice of up to six elements: each element in turn moves towards the front
  while it is less than the one before it (\<open>sift\<close>, on the part already done, nearest
  element first). Three ranking files for three candidates: the scores 1, 3, 2; a
  second line that is not a number; and the scores 1, NaN, 5.
\<close>

fun sift :: "('a \<Rightarrow> 'a \<Rightarrow> bool) \<Rightarrow> 'a \<Rightarrow> 'a list \<Rightarrow> 'a list" where
  "sift lt x [] = [x]"
| "sift lt x (y # before) = (if lt x y then y # sift lt x before else x # y # before)"

definition insertionSort_func :: "('a \<Rightarrow> 'a \<Rightarrow> bool) \<Rightarrow> 'a list \<Rightarrow> 'a list" where
  "insertionSort_func lt xs = rev (foldl (\<lambda>done x. sift lt x done) [] xs)"

fun split_lines :: "string \<Rightarrow> string \<Rightarrow> string list" where
  "split_lines [] line = (if line = [] then [] else [line])"
| "split_lines (c # cs) line =
     (if c = CHR 0x0A then line # split_lines cs [] else split_lines cs (line @ [c]))"

definition test_lib :: "nat lib" where
  "test_lib =
     \<lparr>Scan = (\<lambda>b. split_lines b []),
      ParseFloat = (\<lambda>line. if line = ''NaN'' then Inr NaN
                            else case Atoi line of Inl err \<Rightarrow> Inl err
                                 | Inr v \<Rightarrow> Inr (Fin (real_of_int v))),
      sort_Slice = insertionSort_func\<rparr>"

definition test_fs :: fs where
  "test_fs =
     \<lparr>files = (\<lambda>name.
        if name = ''scores''
        then Inr (''1'' @ [CHR 0x0A] @ ''3'' @ [CHR 0x0A] @ ''2'' @ [CHR 0x0A])
        else if name = ''broken''
        then Inr (''1'' @ [CHR 0x0A] @ ''x'' @ [CHR 0x0A] @ ''2'' @ [CHR 0x0A])
        else if name = ''nan''
        then Inr (''1'' @ [CHR 0x0A] @ ''NaN'' @ [CHR 0x0A] @ ''5'' @ [CHR 0x0A])
        else Inl (Error ''open: no such file or directory'')),
      reads = []\<rparr>"

definition test_candidates :: "nat CandidateQuery list" where
  "test_candidates =
     [NewCandidateQuery (Some 0) ''t'' [], NewCandidateQuery (Some 1) ''t'' [],
      NewCandidateQuery (Some 2) ''t'' []]"

section \<open>Invariants of the loops of Select\<close>

text \<open>
  \<open>settled oc oc'\<close>: from \<open>oc\<close> to \<open>oc'\<close> the best scores did not regress and the
  rest of the bookkeeping is the same. \<open>in_step st\<close>: the locals \<open>bestRelRet\<close> and
  \<open>bestRet\<close> hold the values of the receiver's fields.
\<close>

definition settled :: "'ss OracleQueryChainCandidateSelector \<Rightarrow> 'ss OracleQueryChainCandidateSelector \<Rightarrow> bool" where
  "settled a b = (bestRelRet a \<le> bestRelRet b \<and> bestRet b \<le> bestRet a \<and> depth b = depth a \<and>
     minResults b = minResults a \<and> prevRelRet b = prevRelRet a \<and> prevRet b = prevRet a)"

definition in_step :: "('q, 'ss) locals \<Rightarrow> bool" where
  "in_step st = (l_bestRelRet st = bestRelRet (l_oc st) \<and> l_bestRet st = bestRet (l_oc st))"

definition flow_oc :: "(('q, 'ss) locals, ('q, 'ss) selected) flow \<Rightarrow> 'ss OracleQueryChainCandidateSelector" where
  "flow_oc f = (case f of Continue st \<Rightarrow> l_oc st | Return r \<Rightarrow> fst (snd r))"

definition flow_in_step :: "(('q, 'ss) locals, ('q, 'ss) selected) flow \<Rightarrow> bool" where
  "flow_in_step f = (case f of Continue st \<Rightarrow> in_step st | Return r \<Rightarrow> True)"

lemma settled_refl: "settled a a"
  by (simp add: settled_def)

lemma settled_trans: "settled a b \<Longrightarrow> settled b c \<Longrightarrow> settled a c"
  by (auto simp: settled_def)

lemma candidate_body_settled:
  assumes "in_step st" and "candidate_body env st applied h = (f, h')"
  shows "settled (l_oc st) (flow_oc f) \<and> flow_in_step f"
  using assms
  by (auto simp: candidate_body_def Let_def settled_def in_step_def flow_oc_def flow_in_step_def
           split: prod.splits sum.splits if_splits)

lemma candidates_loop_settled:
  assumes "in_step st" and "candidates_loop env st queries h = (f, h')"
  shows "settled (l_oc st) (flow_oc f) \<and> flow_in_step f"
  using assms
proof (induction queries arbitrary: st h)
  case Nil
  then show ?case by (auto simp: settled_refl flow_oc_def flow_in_step_def)
next
  case (Cons applied rest)
  obtain g h1 where body: "candidate_body env st applied h = (g, h1)"
    by (cases "candidate_body env st applied h")
  note first = candidate_body_settled [OF Cons.prems(1) body]
  show ?case
  proof (cases g)
    case (Return r)
    with Cons.prems(2) body first show ?thesis by simp
  next
    case (Continue st1)
    with Cons.prems(2) body have loop: "candidates_loop env st1 rest h1 = (f, h')" by simp
    from first Continue have "in_step st1" and "settled (l_oc st) (l_oc st1)"
      by (simp_all add: flow_in_step_def flow_oc_def)
    with Cons.IH [OF _ loop] show ?thesis by (blast intro: settled_trans)
  qed
qed

lemma transformations_loop_settled:
  assumes "in_step st" and "transformations_loop env st transformations h = (f, h')"
  shows "settled (l_oc st) (flow_oc f) \<and> flow_in_step f"
  using assms
proof (induction transformations arbitrary: st h)
  case Nil
  then show ?case by (auto simp: settled_refl flow_oc_def flow_in_step_def)
next
  case (Cons transformation rest)
  show ?case
  proof (cases "Apply transformation (Query (PipelineQuery (l_query st)))")
    case (Inl err)
    with Cons.prems(2) show ?thesis
      by (auto simp: settled_refl flow_oc_def flow_in_step_def)
  next
    case (Inr queries)
    obtain g h1 where inner: "candidates_loop env st queries h = (g, h1)"
      by (cases "candidates_loop env st queries h")
    note first = candidates_loop_settled [OF Cons.prems(1) inner]
    show ?thesis
    proof (cases g)
      case (Return r)
      with Cons.prems(2) Inr inner first show ?thesis by simp
    next
      case (Continue st1)
      with Cons.prems(2) Inr inner
      have loop: "transformations_loop env st1 rest h1 = (f, h')" by simp
      from first Continue have "in_step st1" and "settled (l_oc st) (l_oc st1)"
        by (simp_all add: flow_in_step_def flow_oc_def)
      with Cons.IH [OF _ loop] show ?thesis by (blast intro: settled_trans)
    qed
  qed
qed

lemma search_settled:
  assumes "search env oc0 query transformations h = ((query', oc', err), h')"
  shows "settled oc0 oc'"
proof -
  let ?st = "\<lparr>l_query = query, l_oc = oc0, l_bestRelRet = bestRelRet oc0, l_bestRet = bestRet oc0\<rparr>"
  obtain f h1 where loop: "transformations_loop env ?st transformations h = (f, h1)"
    by (cases "transformations_loop env ?st transformations h")
  have "in_step ?st" by (simp add: in_step_def)
  from transformations_loop_settled [OF this loop] have "settled oc0 (flow_oc f)" by simp
  moreover from assms loop have "flow_oc f = oc'"
    by (cases f) (auto simp: search_def flow_oc_def)
  ultimately show ?thesis by simp
qed

lemma enter_book:
  assumes "enter env oc0 h = (oc1, h1)"
  shows "depth oc1 = depth oc0 + 1 \<and> prevRelRet oc1 = bestRelRet oc0 \<and> prevRet oc1 = bestRet oc0 \<and>
         bestRelRet oc1 = bestRelRet oc0 \<and> bestRet oc1 = bestRet oc0 \<and> minResults oc1 = minResults oc0"
  using assms by (auto simp: enter_def Let_def split: if_splits prod.splits)

lemma baseline_book:
  assumes "baseline env oc1 query h = (f, h')"
  shows "(case f of Continue oc2 \<Rightarrow> depth oc2 = depth oc1 \<and> prevRelRet oc2 = prevRelRet oc1 \<and> prevRet oc2 = prevRet oc1
          | Return r \<Rightarrow> depth (fst (snd r)) = depth oc1 \<and> prevRelRet (fst (snd r)) = prevRelRet oc1 \<and>
                         prevRet (fst (snd r)) = prevRet oc1)"
  using assms by (auto simp: baseline_def Let_def split: prod.splits sum.splits)

lemma Select_book:
  assumes "Select env oc0 query transformations h = ((query', oc', err), h')"
  shows "depth oc' = depth oc0 + 1 \<and> prevRelRet oc' = bestRelRet oc0 \<and> prevRet oc' = bestRet oc0"
proof -
  obtain oc1 h1 where en: "enter env oc0 h = (oc1, h1)"
    by (cases "enter env oc0 h")
  note e = enter_book [OF en]
  show ?thesis
  proof (cases "minResults oc1 = 0")
    case False
    with assms en have "search env oc1 query transformations h1 = ((query', oc', err), h')"
      by (simp add: Select_def)
    from search_settled [OF this] e show ?thesis by (simp add: settled_def)
  next
    case True
    obtain f h2 where ba: "baseline env oc1 query h1 = (f, h2)"
      by (cases "baseline env oc1 query h1")
    note b = baseline_book [OF ba]
    show ?thesis
    proof (cases f)
      case (Return r)
      with assms en True ba have "r = (query', oc', err)" by (simp add: Select_def)
      with b Return e show ?thesis by simp
    next
      case (Continue oc2)
      with assms en True ba have "search env oc2 query transformations h2 = ((query', oc', err), h')"
        by (simp add: Select_def)
      from search_settled [OF this] b Continue e show ?thesis by (simp add: settled_def)
    qed
  qed
qed

lemma Select_seeded:
  assumes "minResults oc0 \<noteq> 0"
    and "Select env oc0 query transformations h = ((query', oc', err), h')"
  shows "bestRelRet oc0 \<le> bestRelRet oc' \<and> bestRet oc' \<le> bestRet oc0 \<and> minResults oc' = minResults oc0"
proof -
  obtain oc1 h1 where en: "enter env oc0 h = (oc1, h1)"
    by (cases "enter env oc0 h")
  note e = enter_book [OF en]
  with assms(1) have "minResults oc1 \<noteq> 0" by simp
  with assms(2) en have "search env oc1 query transformations h1 = ((query', oc', err), h')"
    by (simp add: Select_def)
  from search_settled [OF this] e show ?thesis by (simp add: settled_def)
qed

lemma candidates_loop_append:
  "candidates_loop env st (xs @ ys) h =
     (case candidates_loop env st xs h of
        (Return r, h') \<Rightarrow> (Return r, h')
      | (Continue st', h') \<Rightarrow> candidates_loop env st' ys h')"
  by (induction xs arbitrary: st h) (auto split: prod.splits flow.splits)

lemma select_chain_seeded:
  assumes "minResults oc0 \<noteq> 0"
  shows "list_all (\<lambda>b. bestRelRet oc0 \<le> bestRelRet b \<and> bestRet b \<le> bestRet oc0 \<and> minResults b \<noteq> 0)
           (select_chain env oc0 query rounds h) \<and>
         sorted_wrt (\<lambda>a b. bestRelRet a \<le> bestRelRet b \<and> bestRet b \<le> bestRet a)
           (select_chain env oc0 query rounds h)"
  using assms
proof (induction rounds arbitrary: oc0 query h)
  case Nil
  then show ?case by simp
next
  case (Cons transformations later)
  obtain query' oc' err h' where
    sel: "Select env oc0 query transformations h = ((query', oc', err), h')"
    by (metis prod.exhaust)
  note step = Select_seeded [OF Cons.prems sel]
  then have "minResults oc' \<noteq> 0" using Cons.prems by simp
  note IH = Cons.IH [OF this, of query' h']
  have later_all: "list_all (\<lambda>b. bestRelRet oc0 \<le> bestRelRet b \<and> bestRet b \<le> bestRet oc0 \<and> minResults b \<noteq> 0)
           (select_chain env oc' query' later h')"
    using IH step by (auto simp: list_all_iff)
  then show ?case
    using IH Cons.prems sel by (auto simp: list_all_iff)
qed

lemmas test_defs = test_env_def test_documents_def test_qrels_def judged_relevant_def
  test_query_def test_seeded_def test_locals_def test_locals_1_def test_transformation_def

lemmas Select_defs = Select_def enter_def baseline_def search_def candidate_body_def Let_def
  Evaluate_def oracle_evaluators_def score_at_def topic_qrels_def NewPipelineQuery_def Append_def

section \<open>Properties of Select\<close>

lemma transformations_loop_append:
  "transformations_loop env st (xs @ ys) h =
     (case transformations_loop env st xs h of
        (Return r, h') \<Rightarrow> (Return r, h')
      | (Continue st', h') \<Rightarrow> transformations_loop env st' ys h')"
  by (induction xs arbitrary: st h) (auto split: prod.splits flow.splits sum.splits)

text \<open>
  C2. Take a call of \<open>Select\<close> on the selector \<open>oc0\<close>. After its first statements
  (and the baseline, if the selector has none) the round starts from the selector
  \<open>oc1\<close>, with the locals \<open>bestRelRet\<close> and \<open>bestRet\<close> set from the best scores
  stored in \<open>oc1\<close>. Say the round has run the transformations \<open>before\<close>, is in the
  candidates of \<open>transformation\<close>, and reaches the candidate \<open>applied\<close> with the
  running variables \<open>st\<close> (after the candidates \<open>earlier\<close>); the candidate resolves
  and is scored. Then
  \<^item> the running best that the candidate is compared with is the best stored in the
    selector at that moment, which is no worse than the best the round started with;
  \<^item> the candidate is accepted iff its NumRelRet is at least the running
    \<open>bestRelRet\<close>, its NumRet at most the running \<open>bestRet\<close> and its NumRelRet is
    positive; accepting sets both running values (the locals and the fields of the
    selector) to the candidate's scores and makes the candidate the current query;
  \<^item> what \<open>Select\<close> returns is what the rest of the round (the candidates \<open>later\<close>
    and the transformations \<open>after\<close>) gives from these variables: the later
    candidates meet the updated best, not the one the round started with.
\<close>

theorem Select_candidate_acceptance:
  assumes entered: "enter env oc0 h00 = (oc_e, h_e)"
    and start: "(minResults oc_e = 0 \<and> baseline env oc_e query h_e = (Continue oc1, h0)) \<or>
                (minResults oc_e \<noteq> 0 \<and> oc1 = oc_e \<and> h0 = h_e)"
    and round: "transformations_loop env
                  \<lparr>l_query = query, l_oc = oc1, l_bestRelRet = bestRelRet oc1, l_bestRet = bestRet oc1\<rparr>
                  before h0 = (Continue st1, h1)"
    and generation: "Apply transformation (Query (PipelineQuery (l_query st1))) = Inr (earlier @ applied # later)"
    and reached: "candidates_loop env st1 earlier h1 = (Continue st, h)"
    and nq: "nq = NewPipelineQuery (Name (PipelineQuery (l_query st)))
                   (Topic (PipelineQuery (l_query st))) applied"
    and resolved: "NewLogicalTree env nq (ss (l_oc st)) (seen (l_oc st)) h = ((table, Inr tree), h')"
    and evaluated: "evaluation = Evaluate (oracle_evaluators env) (Results env tree nq (Name nq))
                      (qrels (l_oc st)) (Topic (PipelineQuery (l_query st)))"
    and numRelRet: "numRelRet = score_at evaluation (ev_Name (NumRelRet env))"
    and numRet: "numRet = score_at evaluation (ev_Name (NumRet env))"
  shows "l_bestRelRet st = bestRelRet (l_oc st) \<and> l_bestRet st = bestRet (l_oc st) \<and>
         bestRelRet oc1 \<le> bestRelRet (l_oc st) \<and> bestRet (l_oc st) \<le> bestRet oc1 \<and>
         Select env oc0 query (before @ transformation # after) h00 =
           (case (case (if numRelRet \<ge> l_bestRelRet st \<and> numRet \<le> l_bestRet st \<and> numRelRet > 0
                        then candidates_loop env
                               \<lparr>l_query = Append (l_query st) nq,
                                l_oc = (l_oc st)\<lparr>seen := table, bestRelRet := numRelRet, bestRet := numRet\<rparr>,
                                l_bestRelRet = numRelRet, l_bestRet = numRet\<rparr> later h'
                        else candidates_loop env (st\<lparr>l_oc := (l_oc st)\<lparr>seen := table\<rparr>\<rparr>) later h') of
                    (Return r, h'') \<Rightarrow> (Return r, h'')
                  | (Continue st', h'') \<Rightarrow> transformations_loop env st' after h'') of
              (Return r, h'') \<Rightarrow> (r, h'')
            | (Continue st', h'') \<Rightarrow> ((l_query st', l_oc st', None), h''))"
proof -
  let ?st0 = "\<lparr>l_query = query, l_oc = oc1, l_bestRelRet = bestRelRet oc1, l_bestRet = bestRet oc1\<rparr>"
  have st0: "in_step ?st0" by (simp add: in_step_def)
  from transformations_loop_settled [OF st0 round]
  have st1: "in_step st1" "settled oc1 (l_oc st1)"
    by (simp_all add: flow_in_step_def flow_oc_def)
  from candidates_loop_settled [OF st1(1) reached]
  have st: "in_step st" "settled (l_oc st1) (l_oc st)"
    by (simp_all add: flow_in_step_def flow_oc_def)
  from settled_trans [OF st1(2) st(2)] st(1)
  have running: "l_bestRelRet st = bestRelRet (l_oc st) \<and> l_bestRet st = bestRet (l_oc st) \<and>
         bestRelRet oc1 \<le> bestRelRet (l_oc st) \<and> bestRet (l_oc st) \<le> bestRet oc1"
    by (simp add: in_step_def settled_def)
  have inner: "candidates_loop env st1 (earlier @ applied # later) h1 =
     (if numRelRet \<ge> l_bestRelRet st \<and> numRet \<le> l_bestRet st \<and> numRelRet > 0
      then candidates_loop env
             \<lparr>l_query = Append (l_query st) nq,
              l_oc = (l_oc st)\<lparr>seen := table, bestRelRet := numRelRet, bestRet := numRet\<rparr>,
              l_bestRelRet = numRelRet, l_bestRet = numRet\<rparr> later h'
      else candidates_loop env (st\<lparr>l_oc := (l_oc st)\<lparr>seen := table\<rparr>\<rparr>) later h')"
    using reached nq resolved evaluated numRelRet numRet
    by (auto simp: candidates_loop_append candidate_body_def Let_def)
  have select: "Select env oc0 query transformations h00 = search env oc1 query transformations h0"
    for transformations
    using entered start by (auto simp: Select_def)
  have "Select env oc0 query (before @ transformation # after) h00 =
           (case (case (if numRelRet \<ge> l_bestRelRet st \<and> numRet \<le> l_bestRet st \<and> numRelRet > 0
                        then candidates_loop env
                               \<lparr>l_query = Append (l_query st) nq,
                                l_oc = (l_oc st)\<lparr>seen := table, bestRelRet := numRelRet, bestRet := numRet\<rparr>,
                                l_bestRelRet = numRelRet, l_bestRet = numRet\<rparr> later h'
                        else candidates_loop env (st\<lparr>l_oc := (l_oc st)\<lparr>seen := table\<rparr>\<rparr>) later h') of
                    (Return r, h'') \<Rightarrow> (Return r, h'')
                  | (Continue st', h'') \<Rightarrow> transformations_loop env st' after h'') of
              (Return r, h'') \<Rightarrow> (r, h'')
            | (Continue st', h'') \<Rightarrow> ((l_query st', l_oc st', None), h''))"
    unfolding select search_def transformations_loop_append
    using round generation inner by simp
  with running show ?thesis by blast
qed

text \<open>
  An instance, from the selector that the constructor builds: the call takes the
  baseline (2, 4) of query 0 and starts the round from it; query 1 scores (3, 3) and is
  accepted; query 2 scores (2, 2), which the starting best would admit, and is rejected
  against the updated best (3, 3). \<open>Select\<close> returns query 1 and the best (3, 3).
\<close>

theorem Select_candidate_acceptance_witness:
  "enter test_env (NewOracleQueryChainCandidateSelector () test_qrels) 0 =
     ((NewOracleQueryChainCandidateSelector () test_qrels)
        \<lparr>depth := 1, prevRelRet := - 1, prevRet := - 1, seen := Some 0\<rparr>, 1) \<and>
   baseline test_env ((NewOracleQueryChainCandidateSelector () test_qrels)
        \<lparr>depth := 1, prevRelRet := - 1, prevRet := - 1, seen := Some 0\<rparr>) test_query 1
     = (Continue test_seeded, 1) \<and>
   candidates_loop test_env test_locals [Some 1] 1 = (Continue test_locals_1, 1) \<and>
   NewLogicalTree test_env (NewPipelineQuery ''q'' ''t'' (Some 2)) () (Some 0) 1
     = ((Some 0, Inr [''d1'', ''d3'']), 1) \<and>
   score_at (Evaluate (oracle_evaluators test_env) [''d1'', ''d3''] test_qrels ''t'') ''NumRelRet'' = 2 \<and>
   score_at (Evaluate (oracle_evaluators test_env) [''d1'', ''d3''] test_qrels ''t'') ''NumRet'' = 2 \<and>
   bestRelRet test_seeded = 2 \<and> bestRet test_seeded = 4 \<and>
   bestRelRet (l_oc test_locals_1) = 3 \<and> bestRet (l_oc test_locals_1) = 3 \<and>
   Select test_env (NewOracleQueryChainCandidateSelector () test_qrels) test_query
       ([] @ test_transformation [1, 2] # []) 0
     = ((Append test_query (NewPipelineQuery ''q'' ''t'' (Some 1)),
         test_seeded\<lparr>bestRelRet := 3, bestRet := 3\<rparr>, None), 1)"
proof -
  let ?oc0 = "NewOracleQueryChainCandidateSelector () test_qrels"
  let ?oc_e = "?oc0\<lparr>depth := 1, prevRelRet := - 1, prevRet := - 1, seen := Some 0\<rparr>"
  have entered: "enter test_env ?oc0 0 = (?oc_e, 1)"
    by (simp add: NewOracleQueryChainCandidateSelector_def test_defs Select_defs)
  have base: "baseline test_env ?oc_e test_query 1 = (Continue test_seeded, 1)"
    by (simp add: NewOracleQueryChainCandidateSelector_def test_defs Select_defs)
  have start: "(minResults ?oc_e = 0 \<and> baseline test_env ?oc_e test_query 1 = (Continue test_seeded, 1)) \<or>
               (minResults ?oc_e \<noteq> 0 \<and> test_seeded = ?oc_e \<and> (1::nat) = 1)"
    using base by (simp add: NewOracleQueryChainCandidateSelector_def)
  have round: "transformations_loop test_env
      \<lparr>l_query = test_query, l_oc = test_seeded, l_bestRelRet = bestRelRet test_seeded,
        l_bestRet = bestRet test_seeded\<rparr> [] 1 = (Continue test_locals, 1)"
    by (simp add: test_defs)
  have generation: "Apply (test_transformation [1, 2]) (Query (PipelineQuery (l_query test_locals)))
      = Inr ([Some 1] @ Some 2 # [])"
    by (simp add: test_defs)
  have reached: "candidates_loop test_env test_locals [Some 1] 1 = (Continue test_locals_1, 1)"
    by (simp add: test_defs Select_defs)
  have resolved: "NewLogicalTree test_env (NewPipelineQuery ''q'' ''t'' (Some 2))
      (ss (l_oc test_locals_1)) (seen (l_oc test_locals_1)) 1 = ((Some 0, Inr [''d1'', ''d3'']), 1)"
    by (simp add: test_defs Select_defs)
  have nq: "NewPipelineQuery ''q'' ''t'' (Some 2) =
      NewPipelineQuery (Name (PipelineQuery (l_query test_locals_1)))
        (Topic (PipelineQuery (l_query test_locals_1))) (Some (2::nat))"
    by (simp add: test_defs Select_defs)
  note step = Select_candidate_acceptance
    [OF entered start round generation reached nq resolved refl refl refl, of "[]"]
  have scores: "score_at (Evaluate (oracle_evaluators test_env) [''d1'', ''d3''] test_qrels ''t'') ''NumRelRet'' = 2"
    "score_at (Evaluate (oracle_evaluators test_env) [''d1'', ''d3''] test_qrels ''t'') ''NumRet'' = 2"
    by (simp_all add: test_defs Select_defs)
  have last: "Select test_env ?oc0 test_query ([] @ test_transformation [1, 2] # []) 0
     = ((Append test_query (NewPipelineQuery ''q'' ''t'' (Some 1)),
         test_seeded\<lparr>bestRelRet := 3, bestRet := 3\<rparr>, None), 1)"
    using step by (simp add: test_defs Select_defs)
  show ?thesis
    using entered base reached resolved scores last by (simp add: test_defs)
qed

text \<open>
  C4, as stated, fails at the seeding invocation: on the selector that
  \<open>NewOracleQueryChainCandidateSelector\<close> builds (best scores -1), the first \<open>Select\<close>
  overwrites both best scores with the baseline's (2 relevant among 4 retrieved) and then
  accepts query 1, so \<open>bestRet\<close> rises from -1 to 3 across the invocation.
\<close>

theorem select_chain_seeding_counterexample:
  "\<not> sorted_wrt (\<lambda>a b. bestRelRet a \<le> bestRelRet b \<and> bestRet b \<le> bestRet a)
       (select_chain test_env (NewOracleQueryChainCandidateSelector () test_qrels) test_query
          [[test_transformation [1, 2]]] 0)"
  by (simp add: NewOracleQueryChainCandidateSelector_def test_defs Select_defs)

text \<open>
  C4, amended. From a selector that has its baseline (\<open>minResults\<close> is not 0, so the
  seeding block is skipped), along successive invocations of \<open>Select\<close> with any
  transformations and whatever each invocation returns (also with an error),
  \<open>bestRelRet\<close> never decreases and \<open>bestRet\<close> never increases, from any iteration
  to any later one.
\<close>

theorem select_chain_no_regress:
  assumes "minResults oc0 \<noteq> 0"
  shows "sorted_wrt (\<lambda>a b. bestRelRet a \<le> bestRelRet b \<and> bestRet b \<le> bestRet a)
           (select_chain env oc0 query rounds h)"
  by (rule conjunct2 [OF select_chain_seeded [OF assms]])

text \<open>
  An instance: the selector that the first invocation on the constructor's selector
  returns has its baseline; two further rounds from it take the best scores from (2, 4)
  to (3, 3) and keep them.
\<close>

theorem select_chain_no_regress_witness:
  "fst (snd (fst (Select test_env (NewOracleQueryChainCandidateSelector () test_qrels) test_query [] 0)))
     = test_seeded \<and>
   minResults test_seeded \<noteq> 0 \<and>
   map bestRelRet (select_chain test_env test_seeded test_query
      [[test_transformation [1, 2]], [test_transformation [1, 2]]] 0) = [2, 3, 3] \<and>
   map bestRet (select_chain test_env test_seeded test_query
      [[test_transformation [1, 2]], [test_transformation [1, 2]]] 0) = [4, 3, 3] \<and>
   sorted_wrt (\<lambda>a b. bestRelRet a \<le> bestRelRet b \<and> bestRet b \<le> bestRet a)
     (select_chain test_env test_seeded test_query
        [[test_transformation [1, 2]], [test_transformation [1, 2]]] 0)"
proof -
  have seeded: "minResults test_seeded \<noteq> 0"
    by (simp add: test_seeded_def)
  note chain = select_chain_no_regress [OF seeded, of test_env test_query
      "[[test_transformation [1, 2]], [test_transformation [1, 2]]]" 0]
  have "map bestRelRet (select_chain test_env test_seeded test_query
      [[test_transformation [1, 2]], [test_transformation [1, 2]]] 0) = [2, 3, 3]"
    by (simp add: test_defs Select_defs)
  moreover have "map bestRet (select_chain test_env test_seeded test_query
      [[test_transformation [1, 2]], [test_transformation [1, 2]]] 0) = [4, 3, 3]"
    by (simp add: test_defs Select_defs)
  moreover have "fst (snd (fst (Select test_env (NewOracleQueryChainCandidateSelector () test_qrels)
      test_query [] 0))) = test_seeded"
    by (simp add: NewOracleQueryChainCandidateSelector_def test_defs Select_defs)
  ultimately show ?thesis using seeded chain by blast
qed

text \<open>
  C5. What the code does when the statistics source fails on a candidate: with the
  candidates 3 (which fails) and 1 (which scores (3, 3) and would be accepted, as the
  second equation shows), \<open>Select\<close> returns the error of candidate 3 with the query
  and the best scores it entered with; candidate 1 is not evaluated.
\<close>

theorem Select_aborts_on_retrieval_error:
  "fst (Select test_env test_seeded test_query [test_transformation [3, 1]] 0) =
     (test_query, test_seeded\<lparr>depth := 2, prevRelRet := 2, prevRet := 4\<rparr>,
      Some (Error ''statistics source: request failed'')) \<and>
   fst (Select test_env test_seeded test_query [test_transformation [1]] 0) =
     (Append test_query (NewPipelineQuery ''q'' ''t'' (Some 1)),
      test_seeded\<lparr>depth := 2, prevRelRet := 2, prevRet := 4, bestRelRet := 3, bestRet := 3\<rparr>,
      None)"
  by (simp add: test_defs Select_defs)

text \<open>
  C8. A call of \<open>Select\<close> on the selector in the caller's variable \<open>x\<close> leaves every
  variable of the caller as it was (so the depth and the four scores of \<open>x\<close> are
  unchanged); the bookkeeping of the call is in the returned selector only: its depth
  is one more than the caller's (and so differs from it), and its previous scores are
  the caller's best scores. This holds on every return path, the error returns included.
\<close>

theorem call_Select_frame:
  assumes "call_Select env m x query transformations = ((query', oc', err), m')"
  shows "vars m' = vars m \<and>
         depth (vars m' x) = depth (vars m x) \<and> bestRelRet (vars m' x) = bestRelRet (vars m x) \<and>
         bestRet (vars m' x) = bestRet (vars m x) \<and> prevRelRet (vars m' x) = prevRelRet (vars m x) \<and>
         prevRet (vars m' x) = prevRet (vars m x) \<and>
         depth oc' = depth (vars m x) + 1 \<and> depth oc' \<noteq> depth (vars m x) \<and>
         prevRelRet oc' = bestRelRet (vars m x) \<and> prevRet oc' = bestRet (vars m x)"
proof -
  obtain h' where sel: "Select env (vars m x) query transformations (heap m) = ((query', oc', err), h')"
    and m': "m' = m\<lparr>heap := h'\<rparr>"
    using assms by (auto simp: call_Select_def split: prod.splits)
  note book = Select_book [OF sel]
  have "depth (vars m x) + 1 \<noteq> depth (vars m x)" by simp
  with book m' show ?thesis by simp
qed

theorem call_Select_frame_witness:
  "call_Select test_env \<lparr>vars = (\<lambda>x. test_seeded), heap = 0\<rparr> 0 test_query [test_transformation [1]] =
     ((Append test_query (NewPipelineQuery ''q'' ''t'' (Some 1)),
       test_seeded\<lparr>depth := 2, prevRelRet := 2, prevRet := 4, bestRelRet := 3, bestRet := 3\<rparr>, None),
      \<lparr>vars = (\<lambda>x. test_seeded), heap = 0\<rparr>) \<and>
   depth (test_seeded\<lparr>depth := 2, prevRelRet := 2, prevRet := 4, bestRelRet := 3, bestRet := 3\<rparr>)
     = depth test_seeded + 1"
proof -
  have call: "call_Select test_env \<lparr>vars = (\<lambda>x. test_seeded), heap = 0\<rparr> 0 test_query [test_transformation [1]] =
     ((Append test_query (NewPipelineQuery ''q'' ''t'' (Some 1)),
       test_seeded\<lparr>depth := 2, prevRelRet := 2, prevRet := 4, bestRelRet := 3, bestRet := 3\<rparr>, None),
      \<lparr>vars = (\<lambda>x. test_seeded), heap = 0\<rparr>)"
    by (simp add: call_Select_def test_defs Select_defs)
  from call_Select_frame [OF call] call show ?thesis by simp
qed

section \<open>Properties of Evaluate\<close>

lemma score_loop_map_of:
  "score_loop evs results q scores =
     scores ++ map_of (rev (map (\<lambda>e. (ev_Name e, ev_Score e results q)) evs))"
proof (induction evs arbitrary: scores)
  case Nil
  show ?case by simp
next
  case (Cons e evs)
  have "scores(ev_Name e \<mapsto> ev_Score e results q) ++ m = scores ++ ([ev_Name e \<mapsto> ev_Score e results q] ++ m)" for m
    by (rule ext) (auto simp: map_add_def split: option.splits)
  then show ?case
    by (simp add: Cons.IH map_of_append del: fun_upd_apply)
qed

lemma score_loop_dom:
  "dom (score_loop evs results q scores) = dom scores \<union> ev_Name ` set evs"
  by (induction evs arbitrary: scores) auto

text \<open>
  C6. With an empty result list \<open>Evaluate\<close> takes no shortcut: the score map has exactly
  one entry per evaluator name, and the entry is what that evaluator's \<open>Score\<close> returns
  on the empty result list and the topic's judgments (the last evaluator of a name wins,
  as the map assignment in the loop does).
\<close>

theorem Evaluate_empty_results:
  "dom (Evaluate evaluators [] qf topic) = ev_Name ` set evaluators \<and>
   Evaluate evaluators [] qf topic =
     map_of (rev (map (\<lambda>e. (ev_Name e, ev_Score e [] (topic_qrels qf topic))) evaluators))"
proof
  show "dom (Evaluate evaluators [] qf topic) = ev_Name ` set evaluators"
    by (simp add: Evaluate_def score_loop_dom)
  show "Evaluate evaluators [] qf topic =
     map_of (rev (map (\<lambda>e. (ev_Name e, ev_Score e [] (topic_qrels qf topic))) evaluators))"
    by (simp add: Evaluate_def score_loop_map_of)
qed

section \<open>Properties of the stopping criterion\<close>

lemma StoppingCriteria_iff:
  "StoppingCriteria oc \<longleftrightarrow> 5 \<le>s depth oc \<or> bestRet oc = prevRet oc"
  by (simp add: StoppingCriteria_def)

text \<open>
  C1. The criterion as the code computes it: the first comparison of the convergence
  test compares \<open>bestRelRet\<close> with itself. A round from the best (2, 4) that accepts
  query 4 (3 relevant among 4 retrieved) returns a selector of depth 2 whose
  \<open>bestRelRet\<close> rose from 2 to 3 while \<open>bestRet\<close> stayed at 4; the criterion is true
  of it, although the depth is below 5 and the best scores changed in the round.
\<close>

theorem StoppingCriteria_ignores_RelRet:
  "fst (snd (fst (Select test_env test_seeded test_query [test_transformation [4]] 0))) =
     test_seeded\<lparr>depth := 2, prevRelRet := 2, prevRet := 4, bestRelRet := 3, bestRet := 4\<rparr> \<and>
   StoppingCriteria
     (test_seeded\<lparr>depth := 2, prevRelRet := 2, prevRet := 4, bestRelRet := 3, bestRet := 4\<rparr>) = True \<and>
   \<not> (5 \<le>s depth (test_seeded\<lparr>depth := 2, prevRelRet := 2, prevRet := 4, bestRelRet := 3, bestRet := 4\<rparr>) \<or>
       (bestRelRet (test_seeded\<lparr>depth := 2, prevRelRet := 2, prevRet := 4, bestRelRet := 3, bestRet := 4\<rparr>) =
          prevRelRet (test_seeded\<lparr>depth := 2, prevRelRet := 2, prevRet := 4, bestRelRet := 3, bestRet := 4\<rparr>) \<and>
        bestRet (test_seeded\<lparr>depth := 2, prevRelRet := 2, prevRet := 4, bestRelRet := 3, bestRet := 4\<rparr>) =
          prevRet (test_seeded\<lparr>depth := 2, prevRelRet := 2, prevRet := 4, bestRelRet := 3, bestRet := 4\<rparr>)))"
proof (intro conjI)
  show "fst (snd (fst (Select test_env test_seeded test_query [test_transformation [4]] 0))) =
     test_seeded\<lparr>depth := 2, prevRelRet := 2, prevRet := 4, bestRelRet := 3, bestRet := 4\<rparr>"
    by (simp add: test_defs Select_defs)
  show "StoppingCriteria
     (test_seeded\<lparr>depth := 2, prevRelRet := 2, prevRet := 4, bestRelRet := 3, bestRet := 4\<rparr>) = True"
    by (simp add: StoppingCriteria_def)
  show "\<not> (5 \<le>s depth (test_seeded\<lparr>depth := 2, prevRelRet := 2, prevRet := 4, bestRelRet := 3, bestRet := 4\<rparr>) \<or>
       (bestRelRet (test_seeded\<lparr>depth := 2, prevRelRet := 2, prevRet := 4, bestRelRet := 3, bestRet := 4\<rparr>) =
          prevRelRet (test_seeded\<lparr>depth := 2, prevRelRet := 2, prevRet := 4, bestRelRet := 3, bestRet := 4\<rparr>) \<and>
        bestRet (test_seeded\<lparr>depth := 2, prevRelRet := 2, prevRet := 4, bestRelRet := 3, bestRet := 4\<rparr>) =
          prevRet (test_seeded\<lparr>depth := 2, prevRelRet := 2, prevRet := 4, bestRelRet := 3, bestRet := 4\<rparr>)))"
    by (simp add: word_sle_eq)
qed

section \<open>Properties of Formulate\<close>

text \<open>
  C3. What the guard does at the boundary: with exactly fifty judged-relevant studies
  \<open>Formulate\<close> returns the error whose message names 50 as the minimum; with one more
  relevant study it goes on to formulate the queries from the 51 studies.
\<close>

theorem Formulate_rejects_fifty:
  "length (filter (\<lambda>rel. Score rel > 0) fifty_relevant) = 50 \<and>
   Formulate formulate fifty_relevant =
     Returns (Inl (Error ''not enough relevant studies (minimmum 50)'')) \<and>
   Formulate formulate (fifty_relevant @ [\<lparr>DocId = ''60'', Score = 1\<rparr>]) =
     formulate (map int [10..<61])"
proof (intro conjI)
  show "length (filter (\<lambda>rel. Score rel > 0) fifty_relevant) = 50"
    by (simp add: fifty_relevant_def)
  have "relevant_studies fifty_relevant [] [] = Returns (map int [10..<60], [])"
    by (simp add: fifty_relevant_def Atoi_def Let_def is_digit_def digit_value_def upt_rec)
  then show "Formulate formulate fifty_relevant =
     Returns (Inl (Error ''not enough relevant studies (minimmum 50)''))"
    by (simp add: Formulate_def)
  show "Formulate formulate (fifty_relevant @ [\<lparr>DocId = ''60'', Score = 1\<rparr>]) =
     formulate (map int [10..<61])"
    by (simp add: Formulate_def fifty_relevant_def Atoi_def Let_def is_digit_def digit_value_def upt_rec)
qed

section \<open>Properties of Execute\<close>








section \<open>Properties of getRanking\<close>

lemma f64_gt_asym: "f64_gt a b \<Longrightarrow> \<not> f64_gt b a"
  by (cases a; cases b) auto

lemma f64_gt_irrefl: "\<not> f64_gt a a"
  by (cases a) auto

lemma f64_gt_neg_trans: "b \<noteq> NaN \<Longrightarrow> \<not> f64_gt a b \<Longrightarrow> \<not> f64_gt b c \<Longrightarrow> \<not> f64_gt a c"
  by (cases a; cases b; cases c) auto

lemma mset_sift: "mset (sift lt x ys) = add_mset x (mset ys)"
  by (induction ys) auto

lemma set_sift: "set (sift lt x ys) = insert x (set ys)"
  by (induction ys) auto

lemma mset_foldl_sift: "mset (foldl (\<lambda>done x. sift lt x done) acc xs) = mset acc + mset xs"
  by (induction xs arbitrary: acc) (auto simp: mset_sift)

lemma mset_insertionSort_func: "mset (insertionSort_func lt xs) = mset xs"
  by (simp add: insertionSort_func_def mset_foldl_sift)

lemma sorted_sift:
  assumes "\<forall>y\<in>set acc. r_rank y \<noteq> NaN"
    and "sorted_wrt (\<lambda>a b. \<not> f64_gt (r_rank a) (r_rank b)) acc"
  shows "sorted_wrt (\<lambda>a b. \<not> f64_gt (r_rank a) (r_rank b))
           (sift (\<lambda>a b. f64_gt (r_rank a) (r_rank b)) x acc)"
  using assms
proof (induction acc)
  case Nil
  show ?case by simp
next
  case (Cons y ys)
  show ?case
  proof (cases "f64_gt (r_rank x) (r_rank y)")
    case True
    with Cons show ?thesis
      by (auto simp: set_sift dest: f64_gt_asym)
  next
    case False
    have "\<not> f64_gt (r_rank x) (r_rank z)" if "z \<in> set ys" for z
      using that Cons.prems False f64_gt_neg_trans [of "r_rank y" "r_rank x" "r_rank z"] by auto
    with False Cons.prems show ?thesis by auto
  qed
qed

lemma sorted_foldl_sift:
  assumes "\<forall>y\<in>set acc \<union> set xs. r_rank y \<noteq> NaN"
    and "sorted_wrt (\<lambda>a b. \<not> f64_gt (r_rank a) (r_rank b)) acc"
  shows "sorted_wrt (\<lambda>a b. \<not> f64_gt (r_rank a) (r_rank b))
           (foldl (\<lambda>done x. sift (\<lambda>a b. f64_gt (r_rank a) (r_rank b)) x done) acc xs)"
  using assms
proof (induction xs arbitrary: acc)
  case Nil
  then show ?case by simp
next
  case (Cons x xs)
  have "sorted_wrt (\<lambda>a b. \<not> f64_gt (r_rank a) (r_rank b))
          (sift (\<lambda>a b. f64_gt (r_rank a) (r_rank b)) x acc)"
    using Cons.prems by (intro sorted_sift) auto
  moreover have "\<forall>y\<in>set (sift (\<lambda>a b. f64_gt (r_rank a) (r_rank b)) x acc) \<union> set xs. r_rank y \<noteq> NaN"
    using Cons.prems by (auto simp: set_sift)
  ultimately show ?case using Cons.IH by simp
qed

lemma sorted_insertionSort_func:
  assumes "\<forall>y\<in>set xs. r_rank y \<noteq> NaN"
  shows "sorted_wrt (\<lambda>a b. \<not> f64_gt (r_rank b) (r_rank a))
           (insertionSort_func (\<lambda>a b. f64_gt (r_rank a) (r_rank b)) xs)"
proof -
  have "sorted_wrt (\<lambda>a b. \<not> f64_gt (r_rank a) (r_rank b))
          (foldl (\<lambda>done x. sift (\<lambda>a b. f64_gt (r_rank a) (r_rank b)) x done) [] xs)"
    using assms by (intro sorted_foldl_sift) auto
  then show ?thesis
    by (simp add: insertionSort_func_def sorted_wrt_rev)
qed

lemma scan_loop_parsed:
  assumes "map (ParseFloat l) lines = map Inr scores"
    and "i + length lines \<le> length ranks" and "length ranks = length candidates"
  shows "\<exists>rs. scan_loop l candidates lines i ranks = Continue rs \<and> length rs = length ranks \<and>
           (\<forall>j<length ranks. rs ! j =
              (if i \<le> j \<and> j < i + length lines
               then \<lparr>r_rank = scores ! (j - i), r_query = candidates ! j\<rparr> else ranks ! j))"
  using assms
proof (induction lines arbitrary: i ranks scores)
  case Nil
  then show ?case by auto
next
  case (Cons t rest)
  from Cons.prems(1) obtain v vs where scores: "scores = v # vs"
    and v: "ParseFloat l t = Inr v" and vs: "map (ParseFloat l) rest = map Inr vs"
    by (cases scores) auto
  let ?ranks = "ranks[i := \<lparr>r_rank = v, r_query = candidates ! i\<rparr>]"
  from Cons.prems have i: "i < length ranks" "i < length candidates" by simp_all
  from Cons.prems have "Suc i + length rest \<le> length ?ranks" "length ?ranks = length candidates"
    by simp_all
  from Cons.IH [OF vs this] obtain rs where
    rs: "scan_loop l candidates rest (Suc i) ?ranks = Continue rs" "length rs = length ranks"
      "\<forall>j<length ranks. rs ! j =
         (if Suc i \<le> j \<and> j < Suc i + length rest
          then \<lparr>r_rank = vs ! (j - Suc i), r_query = candidates ! j\<rparr> else ?ranks ! j)"
    by auto
  have "scan_loop l candidates (t # rest) i ranks = Continue rs"
    using v i rs(1) by simp
  moreover have "rs ! j =
      (if i \<le> j \<and> j < i + length (t # rest)
       then \<lparr>r_rank = scores ! (j - i), r_query = candidates ! j\<rparr> else ranks ! j)"
    if "j < length ranks" for j
  proof (cases "j = i")
    case True
    with rs(3) that scores show ?thesis by simp
  next
    case False
    with rs(3) that scores show ?thesis by (auto simp: nth_Cons')
  qed
  ultimately show ?case using rs(2) by blast
qed

lemma scan_loop_malformed:
  assumes "\<forall>t\<in>set pre. \<not> isl (ParseFloat l t)" and "ParseFloat l bad = Inl err"
    and "i + length pre < length ranks" and "length ranks = length candidates"
  shows "scan_loop l candidates (pre @ bad # post) i ranks = Return (Returns (zero_CandidateQuery, Some err))"
  using assms
proof (induction pre arbitrary: i ranks)
  case Nil
  then show ?case by simp
next
  case (Cons t rest)
  from Cons.prems(1) obtain v where v: "ParseFloat l t = Inr v"
    by (cases "ParseFloat l t") auto
  from Cons.prems have "\<forall>t\<in>set rest. \<not> isl (ParseFloat l t)" by simp
  from Cons.IH [OF this Cons.prems(2), of "Suc i" "ranks[i := \<lparr>r_rank = v, r_query = candidates ! i\<rparr>]"]
    Cons.prems v
  show ?case by simp
qed

text \<open>
  C7, as stated, fails on a line that \<open>strconv.ParseFloat\<close> accepts as NaN. For the
  three candidates and the file with the lines 1, NaN, 5, all three lines parse without
  an error, no comparison with the NaN holds, so the insertion sort of \<open>sort.Slice\<close>
  moves nothing, and \<open>getRanking\<close> returns candidate 0 with a nil error: not the
  candidate of the maximum score (candidate 2 has 5 > 1), and no parse error.
\<close>

theorem getRanking_NaN_counterexample:
  "Scan test_lib (''1'' @ [CHR 0x0A] @ ''NaN'' @ [CHR 0x0A] @ ''5'' @ [CHR 0x0A]) = [''1'', ''NaN'', ''5''] \<and>
   map (ParseFloat test_lib) [''1'', ''NaN'', ''5''] = [Inr (Fin 1), Inr NaN, Inr (Fin 5)] \<and>
   f64_gt (Fin 5) (Fin 1) \<and>
   fst (getRanking test_lib test_fs ''nan'' test_candidates) = Returns (test_candidates ! 0, None)"
  by (simp add: getRanking_def ReadFile_def test_fs_def test_lib_def test_candidates_def Let_def
        Atoi_def is_digit_def digit_value_def insertionSort_func_def)

text \<open>
  C7, amended. For a ranking file that is read and holds one line per candidate of a
  non-empty candidate list (line i for candidate i), and a \<open>sort.Slice\<close> that returns a
  permutation of its input, in the order of the comparison when no score is NaN: if
  every line parses and no score is NaN, \<open>getRanking\<close> returns with a nil error a
  candidate whose score no other score exceeds; if \<open>strconv.ParseFloat\<close> rejects some
  line, it returns the zero candidate with the parse error of a line of the file.
\<close>

theorem getRanking_ranking_file:
  assumes perm: "\<And>xs. mset (sort_Slice l (\<lambda>a b. f64_gt (r_rank a) (r_rank b)) xs) = mset xs"
    and ordered: "\<And>xs. \<forall>x\<in>set xs. r_rank x \<noteq> NaN \<Longrightarrow>
                    sorted_wrt (\<lambda>a b. \<not> f64_gt (r_rank b) (r_rank a))
                      (sort_Slice l (\<lambda>a b. f64_gt (r_rank a) (r_rank b)) xs)"
    and readable: "files s filename = Inr b"
    and aligned: "length (Scan l b) = length candidates"
    and some: "candidates \<noteq> []"
  shows "(map (ParseFloat l) (Scan l b) = map Inr scores \<and> NaN \<notin> set scores \<longrightarrow>
            (\<exists>i<length candidates.
               fst (getRanking l s filename candidates) = Returns (candidates ! i, None) \<and>
               (\<forall>j<length candidates. \<not> f64_gt (scores ! j) (scores ! i)))) \<and>
         ((\<exists>t\<in>set (Scan l b). isl (ParseFloat l t)) \<longrightarrow>
            (\<exists>t\<in>set (Scan l b). \<exists>err. ParseFloat l t = Inl err \<and>
               fst (getRanking l s filename candidates) = Returns (zero_CandidateQuery, Some err)))"
proof (intro conjI impI)
  let ?zero = "\<lparr>r_rank = Fin 0, r_query = zero_CandidateQuery :: 'a CandidateQuery\<rparr>"
  let ?ranks = "replicate (length candidates) ?zero"
  let ?gt = "\<lambda>a b :: 'a ranking. f64_gt (r_rank a) (r_rank b)"
  {
    assume "map (ParseFloat l) (Scan l b) = map Inr scores \<and> NaN \<notin> set scores"
    then have parsed: "map (ParseFloat l) (Scan l b) = map Inr scores" and numbers: "NaN \<notin> set scores"
      by simp_all
    from parsed aligned have len: "length scores = length candidates"
      by (metis length_map)
    from scan_loop_parsed [OF parsed, of 0 ?ranks candidates] aligned
    obtain rs where rs: "scan_loop l candidates (Scan l b) 0 ?ranks = Continue rs"
      "length rs = length candidates"
      "\<forall>j<length candidates. rs ! j = \<lparr>r_rank = scores ! j, r_query = candidates ! j\<rparr>"
      by auto
    have "r_rank x \<noteq> NaN" if "x \<in> set rs" for x
    proof -
      from that rs(2) obtain j where "j < length candidates" "x = rs ! j"
        by (auto simp: in_set_conv_nth)
      with rs(3) have "r_rank x = scores ! j" by simp
      with \<open>j < length candidates\<close> len numbers show ?thesis
        by (metis nth_mem)
    qed
    then have sorted: "sorted_wrt (\<lambda>a b. \<not> f64_gt (r_rank b) (r_rank a)) (sort_Slice l ?gt rs)"
      by (intro ordered) simp
    let ?srt = "sort_Slice l ?gt rs"
    from perm [of rs] have "length ?srt = length rs" and sets: "set ?srt = set rs"
      by (metis size_mset, metis set_mset_mset)
    with rs(2) some obtain x xs where srt: "?srt = x # xs"
      by (cases ?srt) auto
    with sets have "x \<in> set rs" by auto
    then obtain i where i: "i < length candidates" "rs ! i = x"
      using rs(2) by (auto simp: in_set_conv_nth)
    have top: "\<not> f64_gt (scores ! j) (scores ! i)" if "j < length candidates" for j
    proof -
      from that rs(2) sets have "rs ! j \<in> set ?srt" by simp
      with srt sorted have "\<not> f64_gt (r_rank (rs ! j)) (r_rank x)"
        by (auto simp: f64_gt_irrefl)
      moreover from rs(3) that have "r_rank (rs ! j) = scores ! j" by simp
      moreover from rs(3) i have "r_rank x = scores ! i" by auto
      ultimately show ?thesis by simp
    qed
    from rs(3) i have "r_query x = candidates ! i" by auto
    then have "fst (getRanking l s filename candidates) = Returns (candidates ! i, None)"
      using some readable rs(1) srt
      by (simp add: getRanking_def ReadFile_def Let_def)
    with i(1) top
    show "\<exists>i<length candidates.
               fst (getRanking l s filename candidates) = Returns (candidates ! i, None) \<and>
               (\<forall>j<length candidates. \<not> f64_gt (scores ! j) (scores ! i))"
      by blast
  }
  {
    assume "\<exists>t\<in>set (Scan l b). isl (ParseFloat l t)"
    then obtain pre bad post where split: "Scan l b = pre @ bad # post"
      and bad: "isl (ParseFloat l bad)" and pre: "\<forall>t\<in>set pre. \<not> isl (ParseFloat l t)"
      using split_list_first_prop [of "Scan l b" "\<lambda>t. isl (ParseFloat l t)"] by blast
    from bad obtain err where err: "ParseFloat l bad = Inl err"
      by (cases "ParseFloat l bad") auto
    from split aligned have "0 + length pre < length ?ranks" by simp
    from scan_loop_malformed [OF pre err this, of candidates post] split
    have "scan_loop l candidates (Scan l b) 0 ?ranks = Return (Returns (zero_CandidateQuery, Some err))"
      by simp
    then have "fst (getRanking l s filename candidates) = Returns (zero_CandidateQuery, Some err)"
      using some readable by (simp add: getRanking_def ReadFile_def)
    with err split
    show "\<exists>t\<in>set (Scan l b). \<exists>err. ParseFloat l t = Inl err \<and>
               fst (getRanking l s filename candidates) = Returns (zero_CandidateQuery, Some err)"
      by auto
  }
qed

text \<open>
  An instance, with the insertion sort of \<open>sort.Slice\<close>: the file with the scores
  1, 3, 2 gives candidate 1; the file whose second line is \<open>x\<close> gives the parse error.
\<close>

theorem getRanking_ranking_file_witness:
  "files test_fs ''scores'' = Inr (''1'' @ [CHR 0x0A] @ ''3'' @ [CHR 0x0A] @ ''2'' @ [CHR 0x0A]) \<and>
   Scan test_lib (''1'' @ [CHR 0x0A] @ ''3'' @ [CHR 0x0A] @ ''2'' @ [CHR 0x0A]) = [''1'', ''3'', ''2''] \<and>
   map (ParseFloat test_lib) [''1'', ''3'', ''2''] = map Inr [Fin 1, Fin 3, Fin 2] \<and>
   NaN \<notin> set [Fin 1, Fin 3, Fin 2] \<and>
   length test_candidates = 3 \<and>
   (\<exists>i<length test_candidates.
      fst (getRanking test_lib test_fs ''scores'' test_candidates) = Returns (test_candidates ! i, None) \<and>
      (\<forall>j<length test_candidates. \<not> f64_gt ([Fin 1, Fin 3, Fin 2] ! j) ([Fin 1, Fin 3, Fin 2] ! i))) \<and>
   fst (getRanking test_lib test_fs ''scores'' test_candidates) = Returns (test_candidates ! 1, None) \<and>
   Scan test_lib (''1'' @ [CHR 0x0A] @ ''x'' @ [CHR 0x0A] @ ''2'' @ [CHR 0x0A]) = [''1'', ''x'', ''2''] \<and>
   isl (ParseFloat test_lib ''x'') \<and>
   (\<exists>t\<in>set [''1'', ''x'', ''2'']. \<exists>err. ParseFloat test_lib t = Inl err \<and>
      fst (getRanking test_lib test_fs ''broken'' test_candidates) = Returns (zero_CandidateQuery, Some err)) \<and>
   fst (getRanking test_lib test_fs ''broken'' test_candidates)
     = Returns (zero_CandidateQuery, Some (Error ''strconv.Atoi: invalid syntax''))"
proof -
  let ?good = "''1'' @ [CHR 0x0A] @ ''3'' @ [CHR 0x0A] @ ''2'' @ [CHR 0x0A]"
  let ?bad = "''1'' @ [CHR 0x0A] @ ''x'' @ [CHR 0x0A] @ ''2'' @ [CHR 0x0A]"
  have perm: "mset (sort_Slice test_lib (\<lambda>a b. f64_gt (r_rank a) (r_rank b)) xs) = mset xs" for xs
    by (simp add: test_lib_def mset_insertionSort_func)
  have ordered: "sorted_wrt (\<lambda>a b. \<not> f64_gt (r_rank b) (r_rank a))
      (sort_Slice test_lib (\<lambda>a b. f64_gt (r_rank a) (r_rank b)) xs)"
    if "\<forall>x\<in>set xs. r_rank x \<noteq> NaN" for xs :: "nat ranking list"
    using sorted_insertionSort_func [OF that] by (simp add: test_lib_def)
  have good: "files test_fs ''scores'' = Inr ?good" and bad: "files test_fs ''broken'' = Inr ?bad"
    by (simp_all add: test_fs_def)
  have scan_good: "Scan test_lib ?good = [''1'', ''3'', ''2'']"
    and scan_bad: "Scan test_lib ?bad = [''1'', ''x'', ''2'']"
    by (simp_all add: test_lib_def)
  have len: "length test_candidates = 3" and some: "test_candidates \<noteq> []"
    by (simp_all add: test_candidates_def)
  have parsed: "map (ParseFloat test_lib) [''1'', ''3'', ''2''] = map Inr [Fin 1, Fin 3, Fin 2]"
    by (simp add: test_lib_def Atoi_def Let_def is_digit_def digit_value_def)
  have numbers: "NaN \<notin> set [Fin 1, Fin 3, Fin 2]"
    by simp
  have malformed: "isl (ParseFloat test_lib ''x'')"
    by (simp add: test_lib_def Atoi_def Let_def is_digit_def digit_value_def)
  have aligned_good: "length (Scan test_lib ?good) = length test_candidates"
    and aligned_bad: "length (Scan test_lib ?bad) = length test_candidates"
    using scan_good scan_bad len by simp_all
  from getRanking_ranking_file [OF perm ordered good aligned_good some, of "[Fin 1, Fin 3, Fin 2]"]
    scan_good parsed
  have best: "\<exists>i<length test_candidates.
      fst (getRanking test_lib test_fs ''scores'' test_candidates) = Returns (test_candidates ! i, None) \<and>
      (\<forall>j<length test_candidates. \<not> f64_gt ([Fin 1, Fin 3, Fin 2] ! j) ([Fin 1, Fin 3, Fin 2] ! i))"
    by simp
  from getRanking_ranking_file [OF perm ordered bad aligned_bad some, of "[]"]
    scan_bad malformed
  have err: "\<exists>t\<in>set [''1'', ''x'', ''2'']. \<exists>err. ParseFloat test_lib t = Inl err \<and>
      fst (getRanking test_lib test_fs ''broken'' test_candidates) = Returns (zero_CandidateQuery, Some err)"
    by simp
  have run_good: "fst (getRanking test_lib test_fs ''scores'' test_candidates) = Returns (test_candidates ! 1, None)"
    by (simp add: getRanking_def ReadFile_def test_fs_def test_lib_def test_candidates_def Let_def
          Atoi_def is_digit_def digit_value_def insertionSort_func_def)
  have run_bad: "fst (getRanking test_lib test_fs ''broken'' test_candidates)
      = Returns (zero_CandidateQuery, Some (Error ''strconv.Atoi: invalid syntax''))"
    by (simp add: getRanking_def ReadFile_def test_fs_def test_lib_def test_candidates_def Let_def
          Atoi_def is_digit_def digit_value_def insertionSort_func_def)
  from good scan_good parsed numbers len best run_good scan_bad malformed err run_bad
  show ?thesis by blast
qed

text \<open>
  C10. For an empty (or nil) candidate list \<open>getRanking\<close> returns the zero candidate
  and a nil error and leaves the file system as it was: no file is read, whatever the
  file would hold and whether or not it can be read.
\<close>

theorem getRanking_no_candidates:
  "getRanking l s filename [] = (Returns (zero_CandidateQuery, None), s)"
  by (simp add: getRanking_def)

end
